theory Spec2Isabelle
  imports Main
begin

section \<open>JavaScript values and JsonML\<close>

text \<open>
  The dialect file builds JsonML: an element is an array whose first entry is the tag
  name, whose optional second entry is the attribute object, and whose remaining
  entries are the children; a text leaf is a string.  Strings are lists of code units
  (\<^typ>\<open>char\<close> holds the units below 256, which covers every token of the file).
\<close>

datatype jsval =
    JUndefined
  | JBool bool
  | JStr string
  | JArr "jsval list"
  | JObj "(string \<times> jsval) list"

text \<open>JavaScript truthiness: an array and an object are truthy even when empty.\<close>

fun truthy :: "jsval \<Rightarrow> bool" where
  "truthy JUndefined = False"
| "truthy (JBool b) = b"
| "truthy (JStr s) = (s \<noteq> [])"
| "truthy (JArr xs) = True"
| "truthy (JObj kvs) = True"

text \<open>
  \<open>ToString\<close>, as \<open>+\<close> with a string operand and \<open>RegExp.prototype.exec\<close> apply
  it: an array is joined with commas (an undefined entry gives the empty string).
\<close>

fun to_js_string :: "jsval \<Rightarrow> string"
  and join_js :: "jsval list \<Rightarrow> string" where
  "to_js_string JUndefined = ''undefined''"
| "to_js_string (JBool b) = (if b then ''true'' else ''false'')"
| "to_js_string (JStr s) = s"
| "to_js_string (JArr xs) = join_js xs"
| "to_js_string (JObj kvs) = ''[object Object]''"
| "join_js [] = []"
| "join_js [x] = (case x of JUndefined \<Rightarrow> [] | _ \<Rightarrow> to_js_string x)"
| "join_js (x # y # ys) =
     (case x of JUndefined \<Rightarrow> [] | _ \<Rightarrow> to_js_string x) @ '','' @ join_js (y # ys)"

text \<open>\<open>Array.prototype.concat\<close> with one argument: an array argument is spliced, any
  other value is appended as one entry.\<close>

definition js_concat :: "jsval list \<Rightarrow> jsval \<Rightarrow> jsval list" where
  "js_concat xs v = (case v of JArr ys \<Rightarrow> xs @ ys | _ \<Rightarrow> xs @ [v])"

subsection \<open>String primitives\<close>

fun is_prefix :: "string \<Rightarrow> string \<Rightarrow> bool" where
  "is_prefix [] t = True"
| "is_prefix (p # ps) [] = False"
| "is_prefix (p # ps) (c # cs) = (p = c \<and> is_prefix ps cs)"

text \<open>\<open>text.indexOf(pat)\<close>; \<open>None\<close> stands for \<open>-1\<close>.\<close>

fun indexOf :: "string \<Rightarrow> string \<Rightarrow> nat option" where
  "indexOf pat [] = (if pat = [] then Some 0 else None)"
| "indexOf pat (c # cs) =
     (if is_prefix pat (c # cs) then Some 0 else map_option Suc (indexOf pat cs))"

text \<open>\<open>tag.toUpperCase()\<close> on the ASCII letters (every tag the file registers is
  lower-case ASCII; other code units are left alone).\<close>

definition upper_char :: "char \<Rightarrow> char" where
  "upper_char c =
     (case map_of (zip ''abcdefghijklmnopqrstuvwxyz'' ''ABCDEFGHIJKLMNOPQRSTUVWXYZ'') c of
        Some u \<Rightarrow> u
      | None \<Rightarrow> c)"

definition toUpperCase :: "string \<Rightarrow> string" where
  "toUpperCase s = map upper_char s"

text \<open>\<open>bc.split(/\n/)\<close>: always at least one piece.\<close>

fun split_nl :: "string \<Rightarrow> string list" where
  "split_nl [] = [[]]"
| "split_nl (c # cs) =
     (if c = CHR 0x0A then [] # split_nl cs
      else (case split_nl cs of [] \<Rightarrow> [[c]] | l # ls \<Rightarrow> (c # l) # ls))"

text \<open>\<open>blockContents.join("\n")\<close>.\<close>

fun join_nl :: "string list \<Rightarrow> string" where
  "join_nl [] = []"
| "join_nl [l] = l"
| "join_nl (l # m # ls) = l @ [CHR 0x0A] @ join_nl (m # ls)"

subsection \<open>The regular expressions of the file\<close>

text \<open>
  With the \<open>i\<close> flag a pattern letter matches a code unit when both have the same
  upper-case form; no unit above 127 canonicalises to an ASCII letter.
\<close>

fun is_prefix_ci :: "string \<Rightarrow> string \<Rightarrow> bool" where
  "is_prefix_ci [] t = True"
| "is_prefix_ci (p # ps) [] = False"
| "is_prefix_ci (p # ps) (c # cs) = (upper_char p = upper_char c \<and> is_prefix_ci ps cs)"

fun contains_ci :: "string \<Rightarrow> string \<Rightarrow> bool" where
  "contains_ci pat [] = (pat = [])"
| "contains_ci pat (c # cs) = (is_prefix_ci pat (c # cs) \<or> contains_ci pat cs)"

text \<open>\<open>/<img/i.test(contents)\<close>.\<close>

definition img_test :: "string \<Rightarrow> bool" where
  "img_test s = contains_ci ''<img'' s"

text \<open>
  \<open>/^["']?(.+?)["']?\](.*)$/\<close>, read as the backtracking matcher runs it.  A dot
  matches any unit but a line terminator (LF and CR among the units below 256), and
  without the \<open>m\<close> flag \<open>$\<close> is the end of the input.
\<close>

definition is_quote :: "char \<Rightarrow> bool" where
  "is_quote c = (c = CHR 0x22 \<or> c = CHR 0x27)"

definition is_line_terminator :: "char \<Rightarrow> bool" where
  "is_line_terminator c = (c = CHR 0x0A \<or> c = CHR 0x0D)"

text \<open>\<open>(.*)$\<close>: succeeds, capturing the whole rest, when no line terminator is left.\<close>

definition rest_group :: "string \<Rightarrow> string option" where
  "rest_group t = (if list_ex is_line_terminator t then None else Some t)"

text \<open>\<open>["']?\](.*)$\<close> at the current position: the optional quote is greedy, so it is
  tried consumed first; left unconsumed the next unit would have to be \<open>]\<close>.\<close>

fun after_param :: "string \<Rightarrow> string option" where
  "after_param [] = None"
| "after_param (c # t) =
     (if is_quote c then
        (case t of [] \<Rightarrow> None
         | d # t' \<Rightarrow> if d = CHR '']'' then rest_group t' else None)
      else if c = CHR '']'' then rest_group t
      else None)"

text \<open>\<open>(.+?)\<close> holding \<open>acc\<close> already: lazy, so the continuation is tried before one
  more unit is taken.\<close>

fun lazy_param :: "string \<Rightarrow> string \<Rightarrow> (string \<times> string) option" where
  "lazy_param acc [] = None"
| "lazy_param acc (c # t) =
     (case after_param (c # t) of
        Some contents \<Rightarrow> Some (acc, contents)
      | None \<Rightarrow> if is_line_terminator c then None else lazy_param (acc @ [c]) t)"

text \<open>\<open>(.+?)\<close> from its first unit: at least one unit is taken.\<close>

definition param_group :: "string \<Rightarrow> (string \<times> string) option" where
  "param_group s =
     (case s of [] \<Rightarrow> None
      | c # t \<Rightarrow> if is_line_terminator c then None else lazy_param [c] t)"

text \<open>\<open>regexp.exec(contents)\<close>: the pair \<open>(m[1], m[2])\<close>, or \<open>None\<close> for \<open>null\<close>.  The
  leading optional quote is greedy: consumed first, given back when the rest fails.\<close>

definition regexp_exec :: "string \<Rightarrow> (string \<times> string) option" where
  "regexp_exec s =
     (case s of [] \<Rightarrow> None
      | c # t \<Rightarrow>
          if is_quote c then
            (case param_group t of Some m \<Rightarrow> Some m | None \<Rightarrow> param_group s)
          else param_group s)"

subsection \<open>\<open>parseInt(param, 10)\<close>\<close>

definition is_js_space :: "char \<Rightarrow> bool" where
  "is_js_space c = ((of_char c :: nat) \<in> {9, 10, 11, 12, 13, 32, 160})"

definition is_digit :: "char \<Rightarrow> bool" where
  "is_digit c = (48 \<le> (of_char c :: nat) \<and> (of_char c :: nat) \<le> 57)"

definition digits_value :: "string \<Rightarrow> nat" where
  "digits_value ds = foldl (\<lambda>acc c. 10 * acc + ((of_char c :: nat) - 48)) 0 ds"

text \<open>Leading white space is skipped, one sign is read, then the longest run of
  decimal digits; \<open>None\<close> stands for \<open>NaN\<close> (no digit).\<close>

definition parseInt10 :: "string \<Rightarrow> int option" where
  "parseInt10 s =
     (let s1 = dropWhile is_js_space s;
          neg = is_prefix ''-'' s1;
          s2 = (if is_prefix ''-'' s1 \<or> is_prefix ''+'' s1 then tl s1 else s1);
          ds = takeWhile is_digit s2
      in if ds = [] then None
         else Some (if neg then - int (digits_value ds) else int (digits_value ds)))"

text \<open>The decimal form \<open>+\<close> gives an integer-valued number (exact below \<open>2^53\<close>, where
  the source's doubles are exact too).\<close>

fun nat_to_string :: "nat \<Rightarrow> string" where
  "nat_to_string n =
     (if n < 10 then [''0123456789'' ! n]
      else nat_to_string (n div 10) @ [''0123456789'' ! (n mod 10)])"

definition number_to_string :: "int \<Rightarrow> string" where
  "number_to_string i = (if i < 0 then CHR ''-'' # nat_to_string (nat (- i)) else nat_to_string (nat i))"

declare nat_to_string.simps [simp del]

section \<open>The emitters of the file\<close>

text \<open>Each emitter is the body of the function literal the file passes to a
  registration call; \<open>contents\<close> is a string for a raw rule and an array of nodes for a
  rule whose contents were processed.\<close>

definition emit_b :: "jsval \<Rightarrow> jsval" where
  "emit_b contents = JArr (js_concat [JStr ''span'', JObj [(''class'', JStr ''bbcode-b'')]] contents)"

definition emit_i :: "jsval \<Rightarrow> jsval" where
  "emit_i contents = JArr (js_concat [JStr ''span'', JObj [(''class'', JStr ''bbcode-i'')]] contents)"

definition emit_u :: "jsval \<Rightarrow> jsval" where
  "emit_u contents = JArr (js_concat [JStr ''span'', JObj [(''class'', JStr ''bbcode-u'')]] contents)"

definition emit_s :: "jsval \<Rightarrow> jsval" where
  "emit_s contents = JArr (js_concat [JStr ''span'', JObj [(''class'', JStr ''bbcode-s'')]] contents)"

definition emit_ul :: "jsval \<Rightarrow> jsval" where
  "emit_ul contents = JArr (js_concat [JStr ''ul''] contents)"

definition emit_ol :: "jsval \<Rightarrow> jsval" where
  "emit_ol contents = JArr (js_concat [JStr ''ol''] contents)"

definition emit_li :: "jsval \<Rightarrow> jsval" where
  "emit_li contents = JArr (js_concat [JStr ''li''] contents)"

definition emit_img :: "jsval \<Rightarrow> jsval" where
  "emit_img contents = JArr [JStr ''img'', JObj [(''href'', contents)]]"

definition emit_email :: "jsval \<Rightarrow> jsval" where
  "emit_email contents =
     JArr [JStr ''a'',
           JObj [(''href'', JStr (''mailto:'' @ to_js_string contents)), (''data-bbcode'', JBool True)],
           contents]"

definition emit_url :: "jsval \<Rightarrow> jsval" where
  "emit_url contents =
     JArr [JStr ''a'', JObj [(''href'', contents), (''data-bbcode'', JBool True)], contents]"

definition emit_spoiler :: "jsval \<Rightarrow> jsval" where
  "emit_spoiler contents =
     (if img_test (to_js_string contents)
      then JArr [JStr ''div'', JObj [(''class'', JStr ''spoiler'')], contents]
      else JArr [JStr ''span'', JObj [(''class'', JStr ''spoiler'')], contents])"

definition emit_url_param :: "string \<Rightarrow> jsval \<Rightarrow> jsval" where
  "emit_url_param param contents =
     JArr (js_concat [JStr ''a'', JObj [(''href'', JStr param), (''data-bbcode'', JBool True)]] contents)"

definition emit_email_param :: "string \<Rightarrow> jsval \<Rightarrow> jsval" where
  "emit_email_param param contents =
     JArr (js_concat [JStr ''a'', JObj [(''href'', JStr (''mailto:'' @ param)), (''data-bbcode'', JBool True)]]
             contents)"

text \<open>\<open>parseInt(param, 10) || 1\<close>: \<open>NaN\<close> and \<open>0\<close> are falsy.\<close>

definition size_or_1 :: "string \<Rightarrow> int" where
  "size_or_1 param = (case parseInt10 param of None \<Rightarrow> 1 | Some n \<Rightarrow> if n = 0 then 1 else n)"

definition emit_size :: "string \<Rightarrow> jsval \<Rightarrow> jsval" where
  "emit_size param contents =
     JArr (js_concat
             [JStr ''span'', JObj [(''class'', JStr (''bbcode-size-'' @ number_to_string (size_or_1 param)))]]
             contents)"

definition emit_code :: "string list \<Rightarrow> jsval" where
  "emit_code blockContents =
     JArr [JStr ''p'', JArr (js_concat [JStr ''pre''] (JStr (join_nl blockContents)))]"

definition emit_color :: "string \<Rightarrow> jsval \<Rightarrow> jsval" where
  "emit_color param contents = JArr (js_concat [JStr ''font'', JObj [(''color'', JStr param)]] contents)"

definition emit_font_size :: "string \<Rightarrow> jsval \<Rightarrow> jsval" where
  "emit_font_size param contents = JArr (js_concat [JStr ''font'', JObj [(''size'', JStr param)]] contents)"

definition emit_font :: "string \<Rightarrow> jsval \<Rightarrow> jsval" where
  "emit_font param contents = JArr (js_concat [JStr ''font'', JObj [(''face'', JStr param)]] contents)"

definition emit_small :: "jsval \<Rightarrow> jsval" where
  "emit_small contents =
     JArr (js_concat [JStr ''span'', JObj [(''style'', JStr ''font-size:x-small'')]] contents)"

definition emit_highlight :: "jsval \<Rightarrow> jsval" where
  "emit_highlight contents =
     JArr (js_concat [JStr ''span'', JObj [(''class'', JStr ''highlight'')]] contents)"

definition emit_align :: "string \<Rightarrow> jsval \<Rightarrow> jsval" where
  "emit_align direction contents =
     JArr (js_concat [JStr ''div'', JObj [(''style'', JStr (''text-align:'' @ direction))]] contents)"

definition emit_noparse :: "jsval \<Rightarrow> jsval" where
  "emit_noparse contents = contents"

definition emit_aname :: "string \<Rightarrow> jsval \<Rightarrow> jsval" where
  "emit_aname param contents =
     JArr (js_concat [JStr ''a'', JObj [(''name'', JStr param), (''data-bbcode'', JBool True)]] contents)"

definition emit_fphp :: "jsval \<Rightarrow> jsval" where
  "emit_fphp contents =
     JArr [JStr ''a'',
           JObj [(''href'', JStr (''http://www.php.net/manual-lookup.php?function='' @ to_js_string contents)),
                 (''data-bbcode'', JBool True)],
           contents]"

definition emit_fphp_param :: "string \<Rightarrow> string \<Rightarrow> jsval" where
  "emit_fphp_param param contents =
     JArr [JStr ''a'',
           JObj [(''href'', JStr (''http://www.php.net/manual-lookup.php?function='' @ param)),
                 (''data-bbcode'', JBool True)],
           JStr contents]"

definition emit_google :: "jsval \<Rightarrow> jsval" where
  "emit_google contents =
     JArr [JStr ''a'',
           JObj [(''href'', JStr (''http://www.google.com/search?q='' @ to_js_string contents)),
                 (''data-bbcode'', JBool True)],
           contents]"

definition emit_jumpto :: "string \<Rightarrow> jsval \<Rightarrow> jsval" where
  "emit_jumpto param contents =
     JArr (js_concat [JStr ''a'', JObj [(''href'', JStr (''#'' @ param)), (''data-bbcode'', JBool True)]]
             contents)"

definition emit_edit :: "jsval \<Rightarrow> jsval" where
  "emit_edit contents =
     JArr (js_concat
             [JStr ''div'', JObj [(''class'', JStr ''sepquote'')],
              JArr [JStr ''span'', JObj [(''class'', JStr ''smallfont'')], JStr ''Edit:''],
              JArr [JStr ''br''], JArr [JStr ''br'']]
             contents)"

definition emit_ot :: "jsval \<Rightarrow> jsval" where
  "emit_ot contents =
     JArr (js_concat
             [JStr ''div'', JObj [(''class'', JStr ''sepquote'')],
              JArr [JStr ''span'', JObj [(''class'', JStr ''smallfont'')], JStr ''Off Topic:''],
              JArr [JStr ''br''], JArr [JStr ''br'']]
             contents)"

definition emit_indent :: "jsval \<Rightarrow> jsval" where
  "emit_indent contents = JArr [JStr ''blockquote'', JArr (js_concat [JStr ''div''] contents)]"

definition emit_rule :: "string \<Rightarrow> jsval \<Rightarrow> jsval" where
  "emit_rule param contents =
     JArr [JStr ''div'',
           JObj [(''style'',
                  JStr (''margin: 6px 0; height: 0; border-top: 1px solid '' @ to_js_string contents
                        @ ''; margin: auto; width: '' @ param))]]"

section \<open>Rules and the dialect they are registered in\<close>

text \<open>
  An emitter is called with \<open>this\<close> bound to the engine; the only member the file
  uses is \<open>this.processInline\<close>, so \<open>this\<close> is that function.  It may not return (an
  emitter can re-enter the engine freely), hence the \<open>option\<close>: \<open>None\<close> is "did not
  return", and an emitter that falls off its end returns \<open>Some JUndefined\<close>.
\<close>

type_synonym hook = "string \<Rightarrow> jsval list option"

type_synonym emitter = "hook \<Rightarrow> jsval \<Rightarrow> jsval option"

text \<open>A function literal that does not mention \<open>this\<close>.\<close>

definition plain :: "(jsval \<Rightarrow> jsval) \<Rightarrow> emitter" where
  "plain f = (\<lambda>this contents. Some (f contents))"

text \<open>The options object handed to \<open>Discourse.Dialect.inlineBetween\<close>, with the fields
  the spec's InlineRule lists.\<close>

record inline_rule =
  start :: string
  stop :: string
  rawContents :: bool
  wordBoundary :: bool
  spaceBoundary :: bool
  emitter :: emitter

text \<open>The options object handed to \<open>Discourse.Dialect.replaceBlock\<close>.  A regular
  expression literal is held as the function it denotes: \<open>start.exec(line)\<close> gives the
  match array (the whole match, then the groups, \<open>JUndefined\<close> for a group that took
  no part), \<open>stop.test(line)\<close> a boolean.\<close>

record block_rule =
  block_start :: "string \<Rightarrow> jsval list option"
  block_stop :: "string \<Rightarrow> bool"
  block_emitter :: "hook \<Rightarrow> string list \<Rightarrow> jsval list \<Rightarrow> jsval option"

record dialect =
  inline_rules :: "inline_rule list"
  block_rules :: "block_rule list"

text \<open>Modelled from the spec: \<open>Discourse.Dialect.inlineBetween\<close> is not among the
  sources.  Section 4.2: the rule is appended to the ordered list of inline rules,
  with no uniqueness check.  The token fields are read when the call is made, so the
  caller's later \<open>_.merge\<close> into the same object does not reach a registered rule.\<close>

definition inlineBetween :: "inline_rule \<Rightarrow> dialect \<Rightarrow> dialect" where
  "inlineBetween args d = d\<lparr>inline_rules := inline_rules d @ [args]\<rparr>"

text \<open>Modelled from the spec: \<open>Discourse.Dialect.replaceBlock\<close> is not among the
  sources.  Section 4.2: the rule is appended to the block-rule list.\<close>

definition replaceBlock :: "block_rule \<Rightarrow> dialect \<Rightarrow> dialect" where
  "replaceBlock args d = d\<lparr>block_rules := block_rules d @ [args]\<rparr>"

subsection \<open>The registration functions of the file\<close>

text \<open>The \<open>opts\<close> argument of \<open>replaceBBCode\<close>: \<open>emitter\<close>, \<open>start\<close> and \<open>stop\<close> are
  overwritten by the merges before any use, so the flags are what a caller can pass
  (\<open>{}\<close> leaves all three undefined, that is falsy).\<close>

record bbcode_opts =
  opt_rawContents :: bool
  opt_wordBoundary :: bool
  opt_spaceBoundary :: bool

definition no_opts :: bbcode_opts where
  "no_opts = \<lparr>opt_rawContents = False, opt_wordBoundary = False, opt_spaceBoundary = False\<rparr>"

definition replaceBBCode :: "string \<Rightarrow> emitter \<Rightarrow> bbcode_opts \<Rightarrow> dialect \<Rightarrow> dialect" where
  "replaceBBCode tag em opts d =
     (let opts1 = \<lparr>start = ''['' @ tag @ '']'', stop = ''[/'' @ tag @ '']'',
                   rawContents = opt_rawContents opts, wordBoundary = opt_wordBoundary opts,
                   spaceBoundary = opt_spaceBoundary opts, emitter = em\<rparr>;
          d1 = inlineBetween opts1 d;
          tag' = toUpperCase tag;
          opts2 = opts1\<lparr>start := ''['' @ tag' @ '']'', stop := ''[/'' @ tag' @ '']''\<rparr>
      in inlineBetween opts2 d1)"

definition rawBBCode :: "string \<Rightarrow> emitter \<Rightarrow> dialect \<Rightarrow> dialect" where
  "rawBBCode tag em d = replaceBBCode tag em (no_opts\<lparr>opt_rawContents := True\<rparr>) d"

text \<open>The function literal of \<open>replaceBBCodeParamsRaw\<close>: \<open>if (m) { return
  emitter.call(this, m[1], m[2]); }\<close>, and \<open>undefined\<close> otherwise.\<close>

definition params_emitter :: "(hook \<Rightarrow> string \<Rightarrow> string \<Rightarrow> jsval option) \<Rightarrow> emitter" where
  "params_emitter em this contents =
     (case regexp_exec (to_js_string contents) of
        Some (m1, m2) \<Rightarrow> em this m1 m2
      | None \<Rightarrow> Some JUndefined)"

definition replaceBBCodeParamsRaw ::
  "string \<Rightarrow> (hook \<Rightarrow> string \<Rightarrow> string \<Rightarrow> jsval option) \<Rightarrow> dialect \<Rightarrow> dialect" where
  "replaceBBCodeParamsRaw tag em d =
     (let opts1 = \<lparr>start = ''['' @ tag @ ''='', stop = ''[/'' @ tag @ '']'',
                   rawContents = True, wordBoundary = False, spaceBoundary = False,
                   emitter = params_emitter em\<rparr>;
          d1 = inlineBetween opts1 d;
          tag' = toUpperCase tag;
          opts2 = opts1\<lparr>start := ''['' @ tag' @ ''='', stop := ''[/'' @ tag' @ '']''\<rparr>
      in inlineBetween opts2 d1)"

text \<open>The function literal of \<open>replaceBBCodeParams\<close>:
  \<open>return emitter(param, this.processInline(contents))\<close>.\<close>

definition recursive_emitter :: "(string \<Rightarrow> jsval \<Rightarrow> jsval) \<Rightarrow> hook \<Rightarrow> string \<Rightarrow> string \<Rightarrow> jsval option" where
  "recursive_emitter em this param contents =
     (case this contents of None \<Rightarrow> None | Some nodes \<Rightarrow> Some (em param (JArr nodes)))"

definition replaceBBCodeParams :: "string \<Rightarrow> (string \<Rightarrow> jsval \<Rightarrow> jsval) \<Rightarrow> dialect \<Rightarrow> dialect" where
  "replaceBBCodeParams tag em d = replaceBBCodeParamsRaw tag (recursive_emitter em) d"

subsection \<open>The block rules of the file\<close>

text \<open>\<open>/\[\/code\]/i\<close> and \<open>/\[\/list\]/i\<close> under \<open>test\<close>.\<close>

definition code_stop :: "string \<Rightarrow> bool" where
  "code_stop line = contains_ci ''[/code]'' line"

definition list_stop :: "string \<Rightarrow> bool" where
  "list_stop line = contains_ci ''[/list]'' line"

text \<open>\<open>/(\[code\])([\s\S]*)/igm\<close> under \<open>exec\<close>: the leftmost \<open>[code]\<close>; the second
  group takes all that follows.\<close>

fun code_start :: "string \<Rightarrow> jsval list option" where
  "code_start [] = None"
| "code_start (c # cs) =
     (if is_prefix_ci ''[code]'' (c # cs)
      then Some [JStr (c # cs), JStr (take 6 (c # cs)), JStr (drop 6 (c # cs))]
      else code_start cs)"

definition is_word_char :: "char \<Rightarrow> bool" where
  "is_word_char c =
     (let n = (of_char c :: nat)
      in (48 \<le> n \<and> n \<le> 57) \<or> (65 \<le> n \<and> n \<le> 90) \<or> n = 95 \<or> (97 \<le> n \<and> n \<le> 122))"

text \<open>\<open>=?(\w)?\]([\s\S]*)\<close> after \<open>[list\<close>: both optional parts are greedy, and
  giving either back cannot help, since \<open>=\<close> and a word character are not \<open>]\<close>.  The
  result is the first group and the second.\<close>

definition list_start_tail :: "string \<Rightarrow> (jsval \<times> string) option" where
  "list_start_tail t =
     (let t1 = (if is_prefix ''='' t then tl t else t) in
      (case t1 of
         [] \<Rightarrow> None
       | w # t2 \<Rightarrow>
           if is_word_char w then
             (case t2 of [] \<Rightarrow> None
              | b # t3 \<Rightarrow> if b = CHR '']'' then Some (JStr [w], t3) else None)
           else if w = CHR '']'' then Some (JUndefined, t2)
           else None))"

text \<open>\<open>/\[list=?(\w)?\]([\s\S]*)/igm\<close> under \<open>exec\<close>: the leftmost position where the
  pattern matches.\<close>

fun list_start :: "string \<Rightarrow> jsval list option" where
  "list_start [] = None"
| "list_start (c # cs) =
     (if is_prefix_ci ''[list'' (c # cs) then
        (case list_start_tail (drop 5 (c # cs)) of
           Some (g1, rest) \<Rightarrow> Some [JStr (c # cs), g1, JStr rest]
         | None \<Rightarrow> list_start cs)
      else list_start cs)"

text \<open>\<open>matches[1]\<close>: an index past the end reads \<open>undefined\<close>.\<close>

definition js_index :: "jsval list \<Rightarrow> nat \<Rightarrow> jsval" where
  "js_index xs i = (if i < length xs then xs ! i else JUndefined)"

text \<open>The inner \<open>lines.forEach\<close> of the list emitter, \<open>contents\<close> being the array it
  pushes to.\<close>

fun list_lines :: "hook \<Rightarrow> string list \<Rightarrow> jsval list \<Rightarrow> jsval list option" where
  "list_lines this [] contents = Some contents"
| "list_lines this (line # lines) contents =
     (if indexOf ''[*]'' line = Some 0 then
        (case this (drop 3 line) of
           None \<Rightarrow> None
         | Some li \<Rightarrow>
             list_lines this lines
               (if truthy (JArr li) then contents @ [JArr (js_concat [JStr ''li''] (JArr li))]
                else contents))
      else list_lines this lines contents)"

text \<open>The outer \<open>blockContents.forEach\<close>.\<close>

fun list_blocks :: "hook \<Rightarrow> string list \<Rightarrow> jsval list \<Rightarrow> jsval list option" where
  "list_blocks this [] contents = Some contents"
| "list_blocks this (bc # bcs) contents =
     (case list_lines this (split_nl bc) contents of
        None \<Rightarrow> None
      | Some contents' \<Rightarrow> list_blocks this bcs contents')"

definition emit_list :: "hook \<Rightarrow> string list \<Rightarrow> jsval list \<Rightarrow> jsval option" where
  "emit_list this blockContents matches =
     (let contents =
            (if truthy (js_index matches 1)
             then [JStr ''ol'', JObj [(''type'', js_index matches 1)]]
             else [JStr ''ul''])
      in if blockContents \<noteq> [] then map_option JArr (list_blocks this blockContents contents)
         else Some (JArr contents))"

definition code_block_rule :: block_rule where
  "code_block_rule =
     \<lparr>block_start = code_start, block_stop = code_stop,
      block_emitter = (\<lambda>this blockContents matches. Some (emit_code blockContents))\<rparr>"

definition list_block_rule :: block_rule where
  "list_block_rule = \<lparr>block_start = list_start, block_stop = list_stop, block_emitter = emit_list\<rparr>"

subsection \<open>The file, top to bottom\<close>

definition registrations :: "(dialect \<Rightarrow> dialect) list" where
  "registrations =
     [replaceBBCode ''b'' (plain emit_b) no_opts,
      replaceBBCode ''i'' (plain emit_i) no_opts,
      replaceBBCode ''u'' (plain emit_u) no_opts,
      replaceBBCode ''s'' (plain emit_s) no_opts,
      replaceBBCode ''ul'' (plain emit_ul) no_opts,
      replaceBBCode ''ol'' (plain emit_ol) no_opts,
      replaceBBCode ''li'' (plain emit_li) no_opts,
      rawBBCode ''img'' (plain emit_img),
      rawBBCode ''email'' (plain emit_email),
      rawBBCode ''url'' (plain emit_url),
      rawBBCode ''spoiler'' (plain emit_spoiler),
      replaceBBCodeParams ''url'' emit_url_param,
      replaceBBCodeParams ''email'' emit_email_param,
      replaceBBCodeParams ''size'' emit_size,
      replaceBlock code_block_rule,
      replaceBBCodeParams ''color'' emit_color,
      replaceBBCodeParams ''size'' emit_font_size,
      replaceBBCodeParams ''font'' emit_font,
      replaceBBCode ''small'' (plain emit_small) no_opts,
      replaceBBCode ''highlight'' (plain emit_highlight) no_opts,
      replaceBBCode ''left'' (plain (emit_align ''left'')) no_opts,
      replaceBBCode ''center'' (plain (emit_align ''center'')) no_opts,
      replaceBBCode ''right'' (plain (emit_align ''right'')) no_opts,
      rawBBCode ''noparse'' (plain emit_noparse),
      replaceBBCodeParams ''aname'' emit_aname,
      rawBBCode ''fphp'' (plain emit_fphp),
      replaceBBCodeParamsRaw ''fphp'' (\<lambda>this param contents. Some (emit_fphp_param param contents)),
      rawBBCode ''google'' (plain emit_google),
      replaceBBCodeParams ''jumpto'' emit_jumpto,
      replaceBBCode ''edit'' (plain emit_edit) no_opts,
      replaceBBCode ''ot'' (plain emit_ot) no_opts,
      replaceBBCode ''indent'' (plain emit_indent) no_opts,
      replaceBBCodeParams ''rule'' emit_rule,
      replaceBlock list_block_rule]"

definition empty_dialect :: dialect where
  "empty_dialect = \<lparr>inline_rules = [], block_rules = []\<rparr>"

text \<open>The dialect once the file has been loaded into an engine with no other rule.\<close>

definition bbcode_dialect :: dialect where
  "bbcode_dialect = fold (\<lambda>register d. register d) registrations empty_dialect"

section \<open>The matching engine\<close>

text \<open>
  The engine behind \<open>inlineBetween\<close>, \<open>replaceBlock\<close> and \<open>processInline\<close> is not among
  the sources; the definitions of this section follow sections 4.3 and 4.5 of the
  spec, and every statement about whole inputs below rests on them.
\<close>

text \<open>Modelled from the spec: the boundary tests of the Inline Matcher are not among
  the sources.  Section 4.3, steps 2 and 3: with \<open>wordBoundary\<close> the preceding character
  (if any) must not be a word character; with \<open>spaceBoundary\<close> it must be white space
  (or the start of the text).\<close>

definition invalidBoundary :: "inline_rule \<Rightarrow> char option \<Rightarrow> bool" where
  "invalidBoundary r prev =
     (case prev of
        None \<Rightarrow> False
      | Some c \<Rightarrow> (wordBoundary r \<and> is_word_char c) \<or> (spaceBoundary r \<and> \<not> is_js_space c))"

text \<open>Modelled from the spec: the Inline Matcher's attempt of one rule at the current
  position is not among the sources.  Section 4.3, steps 1 to 7: \<open>start\<close> must literally
  prefix the remaining text, \<open>stop\<close> is searched after it, the text between is processed
  unless the rule is raw, and the emitter's value replaces the span.  An emitter that
  returns no emission is a rule that does not match (sections 4.4 and 7).  The result is
  \<open>None\<close> when the hook did not return, \<open>Some None\<close> for no match, and otherwise the
  length of the span with the node that replaces it.\<close>

definition apply_rule :: "hook \<Rightarrow> char option \<Rightarrow> string \<Rightarrow> inline_rule \<Rightarrow> (nat \<times> jsval) option option" where
  "apply_rule this prev text r =
     (if \<not> is_prefix (start r) text then Some None
      else if invalidBoundary r prev then Some None
      else
        (case indexOf (stop r) (drop (length (start r)) text) of
           None \<Rightarrow> Some None
         | Some endPos \<Rightarrow>
             (let between = take endPos (drop (length (start r)) text) in
              (case (if rawContents r then Some (JStr between) else map_option JArr (this between)) of
                 None \<Rightarrow> None
               | Some contents \<Rightarrow>
                   (case emitter r this contents of
                      None \<Rightarrow> None
                    | Some JUndefined \<Rightarrow> Some None
                    | Some node \<Rightarrow> Some (Some (length (start r) + endPos + length (stop r), node)))))))"

text \<open>Modelled from the spec: the choice among the registered rules is not among the
  sources.  Section 4.2: rules are tried in registration order and the first that
  matches wins.\<close>

fun first_match :: "hook \<Rightarrow> char option \<Rightarrow> string \<Rightarrow> inline_rule list \<Rightarrow> (nat \<times> jsval) option option" where
  "first_match this prev text [] = Some None"
| "first_match this prev text (r # rs) =
     (case apply_rule this prev text r of
        None \<Rightarrow> None
      | Some None \<Rightarrow> first_match this prev text rs
      | Some (Some m) \<Rightarrow> Some (Some m))"

text \<open>Modelled from the spec: the output stream of the Inline Matcher is not among the
  sources.  Section 8: text that no rule consumed comes out as one leaf, so a string
  joins a string that follows it.\<close>

fun add_node :: "jsval \<Rightarrow> jsval list \<Rightarrow> jsval list" where
  "add_node (JStr s) (JStr t # out) = JStr (s @ t) # out"
| "add_node node out = node # out"

text \<open>Modelled from the spec: \<open>processInline\<close> is not among the sources.  Section 4.3,
  steps 1 and 8: the text is scanned left to right; where a rule matches, its node
  replaces the span and the scan resumes after it; where none does, the character is
  literal text.  The first argument bounds the calls still allowed, the re-entry of
  step 6 included: \<open>None\<close> is a scan that did not finish within the bound.\<close>

fun processInline :: "nat \<Rightarrow> inline_rule list \<Rightarrow> char option \<Rightarrow> string \<Rightarrow> jsval list option" where
  "processInline 0 rules prev text = None"
| "processInline (Suc n) rules prev [] = Some []"
| "processInline (Suc n) rules prev (c # cs) =
     (case first_match (\<lambda>t. processInline n rules None t) prev (c # cs) rules of
        None \<Rightarrow> None
      | Some None \<Rightarrow> map_option (add_node (JStr [c])) (processInline n rules (Some c) cs)
      | Some (Some (k, node)) \<Rightarrow>
          map_option (add_node node)
            (processInline n rules (Some ((c # cs) ! (k - 1))) (drop k (c # cs))))"

text \<open>Modelled from the spec: the re-entry hook \<open>processInline(text) -> NodeList\<close> of
  section 6 is not among the sources.  One call per character and one for the end of
  the text are allowed at every level; \<open>inline_hook_returns\<close> below shows that this is
  enough for every input under the dialect of the file.\<close>

definition inline_hook :: "dialect \<Rightarrow> hook" where
  "inline_hook d text = processInline (Suc (length text)) (inline_rules d) None text"

text \<open>Modelled from the spec: section 4.5, step 1: the first block rule whose \<open>start\<close>
  matches the line, with the match array.\<close>

fun first_block :: "string \<Rightarrow> block_rule list \<Rightarrow> (block_rule \<times> jsval list) option" where
  "first_block line [] = None"
| "first_block line (r # rs) =
     (case block_start r line of Some m \<Rightarrow> Some (r, m) | None \<Rightarrow> first_block line rs)"

text \<open>Modelled from the spec: the Block Matcher is not among the sources.  Section 4.5,
  steps 1 to 3, over the lines of a document.  Outside a block a line that starts none
  is passed on; inside a block (the rule, its match array and the buffer so far) every
  line is accumulated until one matches \<open>stop\<close> (consumed, not kept) or the input ends;
  the node the emitter returns for the buffer replaces the block.  The buffer holds the
  lines after the start line, as step 2 says; what follows the start token on its own
  line reaches the emitter in the match array only.\<close>

fun processBlocks ::
  "hook \<Rightarrow> block_rule list \<Rightarrow> (block_rule \<times> jsval list \<times> string list) option \<Rightarrow> string list
   \<Rightarrow> jsval list option" where
  "processBlocks this rules None [] = Some []"
| "processBlocks this rules (Some (r, m, buffer)) [] =
     map_option (\<lambda>node. [node]) (block_emitter r this buffer m)"
| "processBlocks this rules None (l # ls) =
     (case first_block l rules of
        None \<Rightarrow> map_option (Cons (JStr l)) (processBlocks this rules None ls)
      | Some (r, m) \<Rightarrow> processBlocks this rules (Some (r, m, [])) ls)"
| "processBlocks this rules (Some (r, m, buffer)) (l # ls) =
     (if block_stop r l then
        (case block_emitter r this buffer m of
           None \<Rightarrow> None
         | Some node \<Rightarrow> map_option (Cons node) (processBlocks this rules None ls))
      else processBlocks this rules (Some (r, m, buffer @ [l])) ls)"

text \<open>The block pass of a document under the dialect, list items re-entering the
  inline pass of the same dialect.\<close>

definition block_pass :: "dialect \<Rightarrow> string list \<Rightarrow> jsval list option" where
  "block_pass d ls = processBlocks (inline_hook d) (block_rules d) None ls"

section \<open>The spec's node model, read off JsonML\<close>

text \<open>Modelled from the spec: the Node type of section 3 (an element with a tag, an
  ordered attribute map of strings and ordered children, or a text leaf); the renderer
  that reads JsonML is not among the sources.  An attribute value is a string there, so
  a JsonML value is read through \<open>ToString\<close> (\<open>true\<close> becomes \<open>"true"\<close>).\<close>

datatype node =
    Element string "(string \<times> string) list" "node list"
  | Text string

fun to_node :: "jsval \<Rightarrow> node option"
  and to_nodes :: "jsval list \<Rightarrow> node list option" where
  "to_node (JStr s) = Some (Text s)"
| "to_node (JArr (JStr tag # JObj attrs # kids)) =
     map_option (Element tag (map (\<lambda>(k, v). (k, to_js_string v)) attrs)) (to_nodes kids)"
| "to_node (JArr (JStr tag # kids)) = map_option (Element tag []) (to_nodes kids)"
| "to_node v = None"
| "to_nodes [] = Some []"
| "to_nodes (x # xs) =
     (case to_node x of None \<Rightarrow> None | Some n \<Rightarrow> map_option (Cons n) (to_nodes xs))"

section \<open>The rules the registration functions create\<close>

text \<open>The two shapes of option objects the file hands to \<open>inlineBetween\<close>: the one
  \<open>replaceBBCode\<close> builds for a spelling of the tag, and the one
  \<open>replaceBBCodeParamsRaw\<close> builds.\<close>

definition tag_rule :: "string \<Rightarrow> bbcode_opts \<Rightarrow> emitter \<Rightarrow> inline_rule" where
  "tag_rule tag opts em =
     \<lparr>start = ''['' @ tag @ '']'', stop = ''[/'' @ tag @ '']'',
      rawContents = opt_rawContents opts, wordBoundary = opt_wordBoundary opts,
      spaceBoundary = opt_spaceBoundary opts, emitter = em\<rparr>"

definition param_rule :: "string \<Rightarrow> (hook \<Rightarrow> string \<Rightarrow> string \<Rightarrow> jsval option) \<Rightarrow> inline_rule" where
  "param_rule tag em =
     \<lparr>start = ''['' @ tag @ ''='', stop = ''[/'' @ tag @ '']'', rawContents = True,
      wordBoundary = False, spaceBoundary = False, emitter = params_emitter em\<rparr>"

definition raw_opts :: bbcode_opts where
  "raw_opts = no_opts\<lparr>opt_rawContents := True\<rparr>"


section \<open>The parameter pattern\<close>

lemma after_param_Some:
  "after_param t = Some c \<Longrightarrow>
     (\<exists>tq. t = tq @ CHR '']'' # c \<and> (tq = [] \<or> (\<exists>q. tq = [q] \<and> is_quote q))) \<and>
     \<not> list_ex is_line_terminator c"
  by (cases t) (auto simp: rest_group_def split: if_splits list.splits)

lemma after_param_bracket:
  "\<not> list_ex is_line_terminator t \<Longrightarrow> after_param (CHR '']'' # t) = Some t"
  by (simp add: rest_group_def is_quote_def)

lemma lazy_param_Some:
  "lazy_param acc t = Some (p, c) \<Longrightarrow>
     \<exists>mid tq. p = acc @ mid \<and> t = mid @ tq @ CHR '']'' # c \<and>
       (tq = [] \<or> (\<exists>q. tq = [q] \<and> is_quote q)) \<and>
       CHR '']'' \<notin> set mid \<and> \<not> list_ex is_line_terminator (mid @ c)"
proof (induction t arbitrary: acc)
  case Nil
  then show ?case by simp
next
  case (Cons a t)
  show ?case
  proof (cases "after_param (a # t)")
    case (Some c')
    with Cons.prems have "p = acc" "c' = c" by auto
    from after_param_Some[of "a # t" c] Some \<open>c' = c\<close> obtain tq where
      "a # t = tq @ CHR '']'' # c" "tq = [] \<or> (\<exists>q. tq = [q] \<and> is_quote q)"
      "\<not> list_ex is_line_terminator c" by blast
    with \<open>p = acc\<close> show ?thesis
      by (intro exI[of _ "[]"] exI[of _ tq]) simp
  next
    case None
    with Cons.prems have nlt: "\<not> is_line_terminator a" and rec: "lazy_param (acc @ [a]) t = Some (p, c)"
      by (auto split: if_splits)
    from Cons.IH[OF rec] obtain mid tq where
      m: "p = (acc @ [a]) @ mid" "t = mid @ tq @ CHR '']'' # c"
         "tq = [] \<or> (\<exists>q. tq = [q] \<and> is_quote q)" "CHR '']'' \<notin> set mid"
         "\<not> list_ex is_line_terminator (mid @ c)"
      by blast
    have tq_nlt: "\<not> list_ex is_line_terminator tq"
      using m(3) by (auto simp: is_quote_def is_line_terminator_def)
    have "\<not> list_ex is_line_terminator t"
      using m(2,5) tq_nlt by (auto simp: is_line_terminator_def list_ex_iff)
    then have "a \<noteq> CHR '']''"
      using None after_param_bracket by auto
    with m nlt show ?thesis
      by (intro exI[of _ "a # mid"] exI[of _ tq]) auto
  qed
qed

lemma param_group_Some:
  "param_group s = Some (p, c) \<Longrightarrow>
     \<exists>tq. s = p @ tq @ CHR '']'' # c \<and> (tq = [] \<or> (\<exists>q. tq = [q] \<and> is_quote q)) \<and>
       p \<noteq> [] \<and> CHR '']'' \<notin> set (tl p) \<and> \<not> list_ex is_line_terminator (p @ c)"
proof (cases s)
  case Nil
  assume "param_group s = Some (p, c)"
  with Nil show ?thesis by (simp add: param_group_def)
next
  case (Cons a t)
  assume h: "param_group s = Some (p, c)"
  with Cons have nlt: "\<not> is_line_terminator a" and l: "lazy_param [a] t = Some (p, c)"
    by (auto simp: param_group_def split: if_splits)
  from lazy_param_Some[OF l] Cons nlt show ?thesis by auto
qed

lemma regexp_exec_Some:
  "regexp_exec s = Some (p, c) \<Longrightarrow>
     \<exists>lq tq. s = lq @ p @ tq @ CHR '']'' # c \<and>
       (lq = [] \<or> (\<exists>q. lq = [q] \<and> is_quote q)) \<and>
       (tq = [] \<or> (\<exists>q. tq = [q] \<and> is_quote q)) \<and>
       p \<noteq> [] \<and> CHR '']'' \<notin> set (tl p) \<and> \<not> list_ex is_line_terminator (p @ c)"
proof (cases s)
  case Nil
  assume "regexp_exec s = Some (p, c)"
  with Nil show ?thesis by (simp add: regexp_exec_def)
next
  case (Cons a t)
  assume h: "regexp_exec s = Some (p, c)"
  then consider (lead) "is_quote a" "param_group t = Some (p, c)" | (nolead) "param_group s = Some (p, c)"
    using Cons by (auto simp: regexp_exec_def split: if_splits option.splits)
  then show ?thesis
  proof cases
    case lead
    from param_group_Some[OF lead(2)] obtain tq where
      "t = p @ tq @ CHR '']'' # c" "tq = [] \<or> (\<exists>q. tq = [q] \<and> is_quote q)"
      "p \<noteq> []" "CHR '']'' \<notin> set (tl p)" "\<not> list_ex is_line_terminator (p @ c)" by blast
    with Cons lead(1) show ?thesis
      by (intro exI[of _ "[a]"] exI[of _ tq]) auto
  next
    case nolead
    from param_group_Some[OF nolead] show ?thesis
      by (metis append_Nil)
  qed
qed


lemma indexOf_single:
  "x \<notin> set xs \<Longrightarrow> indexOf [x] (xs @ x # ys) = Some (length xs)"
  by (induction xs) auto

section \<open>What the registration functions add\<close>

lemma replaceBBCode_rules:
  "replaceBBCode tag em opts d =
     d\<lparr>inline_rules := inline_rules d @ [tag_rule tag opts em, tag_rule (toUpperCase tag) opts em]\<rparr>"
  by (simp add: replaceBBCode_def inlineBetween_def tag_rule_def Let_def)

lemma rawBBCode_rules:
  "rawBBCode tag em d =
     d\<lparr>inline_rules := inline_rules d @ [tag_rule tag raw_opts em, tag_rule (toUpperCase tag) raw_opts em]\<rparr>"
  by (simp add: rawBBCode_def replaceBBCode_rules raw_opts_def)

lemma replaceBBCodeParamsRaw_rules:
  "replaceBBCodeParamsRaw tag em d =
     d\<lparr>inline_rules := inline_rules d @ [param_rule tag em, param_rule (toUpperCase tag) em]\<rparr>"
  by (simp add: replaceBBCodeParamsRaw_def inlineBetween_def param_rule_def Let_def)

lemma replaceBBCodeParams_rules:
  "replaceBBCodeParams tag em d =
     d\<lparr>inline_rules := inline_rules d @
        [param_rule tag (recursive_emitter em), param_rule (toUpperCase tag) (recursive_emitter em)]\<rparr>"
  by (simp add: replaceBBCodeParams_def replaceBBCodeParamsRaw_rules)

lemma toUpperCase_Nil: "toUpperCase [] = []"
  by (simp add: toUpperCase_def)

lemma toUpperCase_Cons: "toUpperCase (c # cs) = upper_char c # toUpperCase cs"
  by (simp add: toUpperCase_def)

lemma rules_eq:
  "inline_rules bbcode_dialect =
     [tag_rule ''b'' no_opts (plain emit_b),
      tag_rule ''B'' no_opts (plain emit_b),
      tag_rule ''i'' no_opts (plain emit_i),
      tag_rule ''I'' no_opts (plain emit_i),
      tag_rule ''u'' no_opts (plain emit_u),
      tag_rule ''U'' no_opts (plain emit_u),
      tag_rule ''s'' no_opts (plain emit_s),
      tag_rule ''S'' no_opts (plain emit_s),
      tag_rule ''ul'' no_opts (plain emit_ul),
      tag_rule ''UL'' no_opts (plain emit_ul),
      tag_rule ''ol'' no_opts (plain emit_ol),
      tag_rule ''OL'' no_opts (plain emit_ol),
      tag_rule ''li'' no_opts (plain emit_li),
      tag_rule ''LI'' no_opts (plain emit_li),
      tag_rule ''img'' raw_opts (plain emit_img),
      tag_rule ''IMG'' raw_opts (plain emit_img),
      tag_rule ''email'' raw_opts (plain emit_email),
      tag_rule ''EMAIL'' raw_opts (plain emit_email),
      tag_rule ''url'' raw_opts (plain emit_url),
      tag_rule ''URL'' raw_opts (plain emit_url),
      tag_rule ''spoiler'' raw_opts (plain emit_spoiler),
      tag_rule ''SPOILER'' raw_opts (plain emit_spoiler),
      param_rule ''url'' (recursive_emitter emit_url_param),
      param_rule ''URL'' (recursive_emitter emit_url_param),
      param_rule ''email'' (recursive_emitter emit_email_param),
      param_rule ''EMAIL'' (recursive_emitter emit_email_param),
      param_rule ''size'' (recursive_emitter emit_size),
      param_rule ''SIZE'' (recursive_emitter emit_size),
      param_rule ''color'' (recursive_emitter emit_color),
      param_rule ''COLOR'' (recursive_emitter emit_color),
      param_rule ''size'' (recursive_emitter emit_font_size),
      param_rule ''SIZE'' (recursive_emitter emit_font_size),
      param_rule ''font'' (recursive_emitter emit_font),
      param_rule ''FONT'' (recursive_emitter emit_font),
      tag_rule ''small'' no_opts (plain emit_small),
      tag_rule ''SMALL'' no_opts (plain emit_small),
      tag_rule ''highlight'' no_opts (plain emit_highlight),
      tag_rule ''HIGHLIGHT'' no_opts (plain emit_highlight),
      tag_rule ''left'' no_opts (plain (emit_align ''left'')),
      tag_rule ''LEFT'' no_opts (plain (emit_align ''left'')),
      tag_rule ''center'' no_opts (plain (emit_align ''center'')),
      tag_rule ''CENTER'' no_opts (plain (emit_align ''center'')),
      tag_rule ''right'' no_opts (plain (emit_align ''right'')),
      tag_rule ''RIGHT'' no_opts (plain (emit_align ''right'')),
      tag_rule ''noparse'' raw_opts (plain emit_noparse),
      tag_rule ''NOPARSE'' raw_opts (plain emit_noparse),
      param_rule ''aname'' (recursive_emitter emit_aname),
      param_rule ''ANAME'' (recursive_emitter emit_aname),
      tag_rule ''fphp'' raw_opts (plain emit_fphp),
      tag_rule ''FPHP'' raw_opts (plain emit_fphp),
      param_rule ''fphp'' (\<lambda>this param contents. Some (emit_fphp_param param contents)),
      param_rule ''FPHP'' (\<lambda>this param contents. Some (emit_fphp_param param contents)),
      tag_rule ''google'' raw_opts (plain emit_google),
      tag_rule ''GOOGLE'' raw_opts (plain emit_google),
      param_rule ''jumpto'' (recursive_emitter emit_jumpto),
      param_rule ''JUMPTO'' (recursive_emitter emit_jumpto),
      tag_rule ''edit'' no_opts (plain emit_edit),
      tag_rule ''EDIT'' no_opts (plain emit_edit),
      tag_rule ''ot'' no_opts (plain emit_ot),
      tag_rule ''OT'' no_opts (plain emit_ot),
      tag_rule ''indent'' no_opts (plain emit_indent),
      tag_rule ''INDENT'' no_opts (plain emit_indent),
      param_rule ''rule'' (recursive_emitter emit_rule),
      param_rule ''RULE'' (recursive_emitter emit_rule)]"
  by (simp add: bbcode_dialect_def registrations_def empty_dialect_def replaceBBCode_rules rawBBCode_rules
        replaceBBCodeParamsRaw_rules replaceBBCodeParams_rules replaceBlock_def
        toUpperCase_Nil toUpperCase_Cons upper_char_def)

lemma block_rules_eq: "block_rules bbcode_dialect = [code_block_rule, list_block_rule]"
  by (simp add: bbcode_dialect_def registrations_def empty_dialect_def replaceBBCode_rules rawBBCode_rules
        replaceBBCodeParamsRaw_rules replaceBBCodeParams_rules replaceBlock_def)

lemma tag_rule_sel:
  "start (tag_rule tag opts em) = ''['' @ tag @ '']''"
  "stop (tag_rule tag opts em) = ''[/'' @ tag @ '']''"
  "rawContents (tag_rule tag opts em) = opt_rawContents opts"
  "wordBoundary (tag_rule tag opts em) = opt_wordBoundary opts"
  "spaceBoundary (tag_rule tag opts em) = opt_spaceBoundary opts"
  "emitter (tag_rule tag opts em) = em"
  by (simp_all add: tag_rule_def)

lemma param_rule_sel:
  "start (param_rule tag em) = ''['' @ tag @ ''=''"
  "stop (param_rule tag em) = ''[/'' @ tag @ '']''"
  "rawContents (param_rule tag em) = True"
  "wordBoundary (param_rule tag em) = False"
  "spaceBoundary (param_rule tag em) = False"
  "emitter (param_rule tag em) = params_emitter em"
  by (simp_all add: param_rule_def)

lemma opts_sel:
  "opt_rawContents no_opts = False" "opt_wordBoundary no_opts = False" "opt_spaceBoundary no_opts = False"
  "opt_rawContents raw_opts = True" "opt_wordBoundary raw_opts = False" "opt_spaceBoundary raw_opts = False"
  by (simp_all add: no_opts_def raw_opts_def)

lemma starts_bracket: "list_all (\<lambda>r. is_prefix ''['' (start r)) (inline_rules bbcode_dialect)"
  by (simp add: rules_eq tag_rule_sel param_rule_sel)

section \<open>The inline matcher\<close>

declare processInline.simps [simp del]

lemma processInline_Nil: "processInline (Suc n) rs prev [] = Some []"
  by (simp add: processInline.simps)

lemma is_prefix_append: "is_prefix p (p @ t)"
  by (induction p) auto

lemma is_prefix_other: "is_prefix [b] s \<Longrightarrow> c \<noteq> b \<Longrightarrow> \<not> is_prefix s (c # cs)"
  by (cases s) auto

lemma indexOf_after_plain:
  "b \<notin> set x \<Longrightarrow> indexOf (b # t) (x @ b # t @ rest) = Some (length x)"
proof (induction x)
  case Nil
  show ?case using is_prefix_append[of "b # t" rest] by simp
next
  case (Cons a x)
  then show ?case by auto
qed

lemma apply_rule_no_prefix: "\<not> is_prefix (start r) text \<Longrightarrow> apply_rule this prev text r = Some None"
  by (simp add: apply_rule_def)

lemma first_match_skip:
  "list_all (\<lambda>r. \<not> is_prefix (start r) text) rs1 \<Longrightarrow>
     first_match this prev text (rs1 @ rs2) = first_match this prev text rs2"
  by (induction rs1) (auto simp: apply_rule_no_prefix)

lemma first_match_none:
  "list_all (\<lambda>r. \<not> is_prefix (start r) text) rs \<Longrightarrow> first_match this prev text rs = Some None"
  using first_match_skip[where ?rs2.0 = "[]"] by simp

lemma first_match_at:
  assumes "i < length rs"
    and "list_all (\<lambda>r. \<not> is_prefix (start r) text) (take i rs)"
    and "apply_rule this prev text (rs ! i) = Some (Some m)"
  shows "first_match this prev text rs = Some (Some m)"
proof -
  have "rs = take i rs @ rs ! i # drop (Suc i) rs"
    using assms(1) by (simp add: id_take_nth_drop)
  then have "first_match this prev text rs = first_match this prev text (rs ! i # drop (Suc i) rs)"
    using first_match_skip[OF assms(2)] by metis
  with assms(3) show ?thesis by simp
qed


lemma first_match_plain:
  "list_all (\<lambda>r. is_prefix ''['' (start r)) rs \<Longrightarrow> c \<noteq> CHR ''['' \<Longrightarrow>
     first_match this prev (c # cs) rs = Some None"
  by (rule first_match_none) (auto simp: list_all_iff dest: is_prefix_other)

lemma add_node_text: "add_node (JStr [c]) (add_node (JStr x) out) = add_node (JStr (c # x)) out"
  by (cases "(JStr x, out)" rule: add_node.cases) auto

lemma processInline_literal:
  "first_match (\<lambda>t. processInline n rs None t) prev (c # cs) rs = Some None \<Longrightarrow>
     processInline (Suc n) rs prev (c # cs) =
       map_option (add_node (JStr [c])) (processInline n rs (Some c) cs)"
  by (simp add: processInline.simps)

lemma processInline_plain:
  "list_all (\<lambda>r. is_prefix ''['' (start r)) rs \<Longrightarrow> CHR ''['' \<notin> set x \<Longrightarrow> x \<noteq> [] \<Longrightarrow>
     processInline (length x + n) rs prev (x @ rest) =
       map_option (add_node (JStr x)) (processInline n rs (Some (last x)) rest)"
proof (induction x arbitrary: prev)
  case Nil
  then show ?case by simp
next
  case (Cons c x)
  note processInline_Nil [simp]
  have fm: "first_match (\<lambda>t. processInline (length x + n) rs None t) prev (c # x @ rest) rs = Some None"
    using Cons.prems by (intro first_match_plain) auto
  show ?case
  proof (cases "x = []")
    case True
    with fm show ?thesis by (simp add: processInline_literal)
  next
    case False
    with Cons have "processInline (length x + n) rs (Some c) (x @ rest) =
       map_option (add_node (JStr x)) (processInline n rs (Some (last x)) rest)" by simp
    with fm False show ?thesis
      by (simp add: processInline_literal option.map_comp comp_def add_node_text)
  qed
qed

lemma processInline_plain_all:
  "list_all (\<lambda>r. is_prefix ''['' (start r)) rs \<Longrightarrow> CHR ''['' \<notin> set x \<Longrightarrow> length x < m \<Longrightarrow>
     processInline m rs prev x = Some (if x = [] then [] else [JStr x])"
proof (cases "x = []")
  case True
  assume "length x < m"
  then obtain k where "m = Suc k" by (cases m) auto
  with True show ?thesis by (simp add: processInline_Nil)
next
  case False
  assume a: "list_all (\<lambda>r. is_prefix ''['' (start r)) rs" "CHR ''['' \<notin> set x" "length x < m"
  then obtain k where m: "m = length x + Suc k"
    by (metis less_imp_Suc_add add_Suc_right)
  from processInline_plain[OF a(1,2) False, of "Suc k" prev "[]"] m False show ?thesis
    by (simp add: processInline_Nil)
qed

lemma apply_rule_span:
  assumes "indexOf (stop r) (s @ stop r @ rest) = Some (length s)"
    and "\<not> invalidBoundary r prev"
  shows "apply_rule this prev (start r @ s @ stop r @ rest) r =
     (case (if rawContents r then Some (JStr s) else map_option JArr (this s)) of
        None \<Rightarrow> None
      | Some contents \<Rightarrow>
          (case emitter r this contents of
             None \<Rightarrow> None
           | Some JUndefined \<Rightarrow> Some None
           | Some node \<Rightarrow> Some (Some (length (start r) + length s + length (stop r), node))))"
  using assms by (simp add: apply_rule_def is_prefix_append Let_def)

lemma processInline_match:
  assumes "i < length rs"
    and "list_all (\<lambda>r. \<not> is_prefix (start r) (c # cs)) (take i rs)"
    and "apply_rule (\<lambda>t. processInline n rs None t) prev (c # cs) (rs ! i) = Some (Some (k, node))"
  shows "processInline (Suc n) rs prev (c # cs) =
     map_option (add_node node) (processInline n rs (Some ((c # cs) ! (k - 1))) (drop k (c # cs)))"
  using first_match_at[OF assms] by (simp add: processInline.simps)

lemma rules_length: "length (inline_rules bbcode_dialect) = 64"
  by (simp add: rules_eq)

lemma starts_eq:
  "map start (inline_rules bbcode_dialect) =
     [''[b]'', ''[B]'', ''[i]'', ''[I]'', ''[u]'', ''[U]'', ''[s]'', ''[S]'',
      ''[ul]'', ''[UL]'', ''[ol]'', ''[OL]'', ''[li]'', ''[LI]'', ''[img]'', ''[IMG]'',
      ''[email]'', ''[EMAIL]'', ''[url]'', ''[URL]'', ''[spoiler]'', ''[SPOILER]'',
      ''[url='', ''[URL='', ''[email='', ''[EMAIL='', ''[size='', ''[SIZE='',
      ''[color='', ''[COLOR='', ''[size='', ''[SIZE='', ''[font='', ''[FONT='',
      ''[small]'', ''[SMALL]'', ''[highlight]'', ''[HIGHLIGHT]'', ''[left]'', ''[LEFT]'',
      ''[center]'', ''[CENTER]'', ''[right]'', ''[RIGHT]'', ''[noparse]'', ''[NOPARSE]'',
      ''[aname='', ''[ANAME='', ''[fphp]'', ''[FPHP]'', ''[fphp='', ''[FPHP='',
      ''[google]'', ''[GOOGLE]'', ''[jumpto='', ''[JUMPTO='', ''[edit]'', ''[EDIT]'',
      ''[ot]'', ''[OT]'', ''[indent]'', ''[INDENT]'', ''[rule='', ''[RULE='']"
  by (simp add: rules_eq tag_rule_sel param_rule_sel)

lemma list_all_starts:
  "list_all (\<lambda>q. P (start q)) rs = list_all P (map start rs)"
  by (simp add: list_all_iff)

lemma rules_nth:
  "inline_rules bbcode_dialect ! 0 = tag_rule ''b'' no_opts (plain emit_b)"
  "inline_rules bbcode_dialect ! 1 = tag_rule ''B'' no_opts (plain emit_b)"
  "inline_rules bbcode_dialect ! 2 = tag_rule ''i'' no_opts (plain emit_i)"
  "inline_rules bbcode_dialect ! 22 = param_rule ''url'' (recursive_emitter emit_url_param)"
  "inline_rules bbcode_dialect ! 26 = param_rule ''size'' (recursive_emitter emit_size)"
  "inline_rules bbcode_dialect ! 30 = param_rule ''size'' (recursive_emitter emit_font_size)"
  "inline_rules bbcode_dialect ! 44 = tag_rule ''noparse'' raw_opts (plain emit_noparse)"
  by (simp_all add: rules_eq)

lemma not_undefined_case:
  "node \<noteq> JUndefined \<Longrightarrow> (case node of JUndefined \<Rightarrow> a | _ \<Rightarrow> b) = b"
  by (cases node) auto

lemma inline_hook_span:
  assumes i: "i < length (inline_rules d)"
    and r: "inline_rules d ! i = r"
    and np: "list_all (\<lambda>p. \<not> is_prefix p (start r @ s @ stop r)) (take i (map start (inline_rules d)))"
    and ne: "start r \<noteq> []"
    and ix: "indexOf (stop r) (s @ stop r) = Some (length s)"
    and c: "(if rawContents r then Some (JStr s)
             else map_option JArr (processInline (length (start r @ s @ stop r)) (inline_rules d) None s))
            = Some contents"
    and e: "emitter r (\<lambda>t. processInline (length (start r @ s @ stop r)) (inline_rules d) None t) contents
            = Some node"
    and u: "node \<noteq> JUndefined"
  shows "inline_hook d (start r @ s @ stop r) = Some [node]"
proof -
  let ?text = "start r @ s @ stop r"
  let ?rs = "inline_rules d"
  let ?n = "length ?text"
  obtain a as where t: "?text = a # as" using ne by (cases "start r") auto
  have ap: "apply_rule (\<lambda>t. processInline ?n ?rs None t) None ?text r = Some (Some (?n, node))"
    using apply_rule_span[of r s "[]" None "\<lambda>t. processInline ?n ?rs None t"] ix c e u
    by (cases node) (simp_all add: invalidBoundary_def)
  have "processInline (Suc ?n) ?rs None (a # as) =
          map_option (add_node node) (processInline ?n ?rs (Some ((a # as) ! (?n - 1))) (drop ?n (a # as)))"
    using i np ap r unfolding t
    by (intro processInline_match[where i = i]) (auto simp: list_all_iff take_map)
  moreover have "drop ?n (a # as) = []" using t by (metis order_refl drop_all)
  moreover obtain k where "?n = Suc k" using t by (metis length_Cons)
  ultimately show ?thesis
    unfolding inline_hook_def t[symmetric] by (simp add: processInline_Nil)
qed

lemma hook_plain:
  "CHR ''['' \<notin> set x \<Longrightarrow> length x < m \<Longrightarrow>
     processInline m (inline_rules bbcode_dialect) prev x = Some (if x = [] then [] else [JStr x])"
  by (rule processInline_plain_all[OF starts_bracket])

section \<open>The spoiler pattern\<close>

lemma is_prefix_ci_iff:
  "is_prefix_ci pat t \<longleftrightarrow> (\<exists>mid post. t = mid @ post \<and> map upper_char mid = map upper_char pat)"
proof (induction pat t rule: is_prefix_ci.induct)
  case (1 t)
  show ?case by simp
next
  case (2 p ps)
  show ?case by simp
next
  case (3 p ps c cs)
  show ?case
  proof
    assume "is_prefix_ci (p # ps) (c # cs)"
    with 3 obtain mid post where "cs = mid @ post" "map upper_char mid = map upper_char ps"
      "upper_char p = upper_char c" by auto
    then show "\<exists>mid post. c # cs = mid @ post \<and> map upper_char mid = map upper_char (p # ps)"
      by (intro exI[of _ "c # mid"] exI[of _ post]) simp
  next
    assume "\<exists>mid post. c # cs = mid @ post \<and> map upper_char mid = map upper_char (p # ps)"
    then obtain mid post where m: "c # cs = mid @ post" "map upper_char mid = map upper_char (p # ps)"
      by blast
    then obtain m' where "mid = c # m'" by (cases mid) auto
    with m 3 show "is_prefix_ci (p # ps) (c # cs)" by auto
  qed
qed

lemma contains_ci_iff:
  "pat \<noteq> [] \<Longrightarrow>
   contains_ci pat s \<longleftrightarrow> (\<exists>pre mid post. s = pre @ mid @ post \<and> map upper_char mid = map upper_char pat)"
proof (induction s)
  case Nil
  then show ?case by auto
next
  case (Cons c cs)
  show ?case
  proof
    assume "contains_ci pat (c # cs)"
    then consider "is_prefix_ci pat (c # cs)" | "contains_ci pat cs" by auto
    then show "\<exists>pre mid post. c # cs = pre @ mid @ post \<and> map upper_char mid = map upper_char pat"
    proof cases
      case 1
      then show ?thesis unfolding is_prefix_ci_iff by (metis append_Nil)
    next
      case 2
      with Cons obtain pre mid post where "cs = pre @ mid @ post" "map upper_char mid = map upper_char pat"
        by blast
      then show ?thesis by (intro exI[of _ "c # pre"] exI[of _ mid] exI[of _ post]) simp
    qed
  next
    assume "\<exists>pre mid post. c # cs = pre @ mid @ post \<and> map upper_char mid = map upper_char pat"
    then obtain pre mid post where m: "c # cs = pre @ mid @ post" "map upper_char mid = map upper_char pat"
      by blast
    show "contains_ci pat (c # cs)"
    proof (cases pre)
      case Nil
      with m have "is_prefix_ci pat (c # cs)" unfolding is_prefix_ci_iff by auto
      then show ?thesis by simp
    next
      case (Cons a pre')
      with m have "cs = pre' @ mid @ post" by simp
      with m(2) Cons.IH[OF Cons.prems] have "contains_ci pat cs" by blast
      then show ?thesis by simp
    qed
  qed
qed

lemma img_upper: "map upper_char ''<img'' = ''<IMG''"
  by (simp add: upper_char_def)

lemma img_test_iff:
  "img_test s \<longleftrightarrow> (\<exists>pre mid post. s = pre @ mid @ post \<and> map upper_char mid = ''<IMG'')"
proof -
  have "''<img'' \<noteq> []" by simp
  from contains_ci_iff[OF this, of s] show ?thesis unfolding img_test_def img_upper .
qed

section \<open>Whole inputs through the engine\<close>

lemma inline_hook_plain:
  "CHR ''['' \<notin> set x \<Longrightarrow> inline_hook bbcode_dialect x = Some (if x = [] then [] else [JStr x])"
  unfolding inline_hook_def by (rule hook_plain) simp_all

lemmas block_eval = block_pass_def block_rules_eq code_block_rule_def list_block_rule_def
  code_stop_def list_stop_def list_start_tail_def is_word_char_def upper_char_def
  emit_code_def emit_list_def js_index_def js_concat_def inline_hook_plain

lemma number_to_string_1: "number_to_string 1 = ''1''"
  by code_simp

lemma size_or_1_default:
  "parseInt10 param = None \<or> parseInt10 param = Some 0 \<Longrightarrow> size_or_1 param = 1"
  by (auto simp: size_or_1_def)

lemma parseInt10_huge: "parseInt10 ''huge'' = None"
  by code_simp

lemma parseInt10_zero: "parseInt10 ''0x10'' = Some 0"
  by code_simp

lemma ex_size_huge:
  "inline_hook bbcode_dialect ''[size=huge]x[/size]'' =
     Some [JArr [JStr ''span'', JObj [(''class'', JStr ''bbcode-size-1'')], JStr ''x'']]"
  using inline_hook_span[where d = bbcode_dialect and i = 26 and s = "''huge]x''"
      and r = "param_rule ''size'' (recursive_emitter emit_size)"
      and contents = "JStr ''huge]x''"
      and node = "JArr [JStr ''span'', JObj [(''class'', JStr ''bbcode-size-1'')], JStr ''x'']"]
    size_or_1_default[of "''huge''"]
  by (simp add: rules_length rules_nth starts_eq param_rule_sel hook_plain parseInt10_huge
       params_emitter_def recursive_emitter_def emit_size_def number_to_string_1 js_concat_def
       regexp_exec_def param_group_def is_quote_def is_line_terminator_def rest_group_def)

lemma ex_b: "inline_hook bbcode_dialect ''[b]x[/b]'' =
  Some [JArr [JStr ''span'', JObj [(''class'', JStr ''bbcode-b'')], JStr ''x'']]"
  using inline_hook_span[where d = bbcode_dialect and i = 0 and s = "''x''"
      and r = "tag_rule ''b'' no_opts (plain emit_b)"
      and contents = "JArr [JStr ''x'']"
      and node = "JArr [JStr ''span'', JObj [(''class'', JStr ''bbcode-b'')], JStr ''x'']"]
  by (simp add: rules_length rules_nth starts_eq tag_rule_sel opts_sel hook_plain plain_def emit_b_def js_concat_def)



lemmas regexp_eval = regexp_exec_def param_group_def is_quote_def is_line_terminator_def rest_group_def

lemma quote_not_bracket: "is_quote q \<Longrightarrow> q \<noteq> CHR '']''"
  by (auto simp: is_quote_def)

lemma ex_url: "inline_hook bbcode_dialect ''[url=http://example.com]click[/url]'' =
  Some [JArr [JStr ''a'', JObj [(''href'', JStr ''http://example.com''), (''data-bbcode'', JBool True)], JStr ''click'']]"
  using inline_hook_span[where d = bbcode_dialect and i = 22 and s = "''http://example.com]click''"
      and r = "param_rule ''url'' (recursive_emitter emit_url_param)"
      and contents = "JStr ''http://example.com]click''"
      and node = "JArr [JStr ''a'', JObj [(''href'', JStr ''http://example.com''), (''data-bbcode'', JBool True)], JStr ''click'']"]
  by (simp add: rules_length rules_nth starts_eq tag_rule_sel param_rule_sel opts_sel hook_plain
       params_emitter_def recursive_emitter_def emit_url_param_def js_concat_def regexp_eval)

lemma ex_url_bracket: "inline_hook bbcode_dialect ''[url=]a]b[/url]'' =
  Some [JArr [JStr ''a'', JObj [(''href'', JStr '']a''), (''data-bbcode'', JBool True)], JStr ''b'']]"
  using inline_hook_span[where d = bbcode_dialect and i = 22 and s = "'']a]b''"
      and r = "param_rule ''url'' (recursive_emitter emit_url_param)"
      and contents = "JStr '']a]b''"
      and node = "JArr [JStr ''a'', JObj [(''href'', JStr '']a''), (''data-bbcode'', JBool True)], JStr ''b'']"]
  by (simp add: rules_length rules_nth starts_eq tag_rule_sel param_rule_sel opts_sel hook_plain
       params_emitter_def recursive_emitter_def emit_url_param_def js_concat_def regexp_eval)

section \<open>The list emitter\<close>

lemma indexOf_zero: "indexOf pat t = Some 0 \<longleftrightarrow> is_prefix pat t"
  by (cases t; cases pat) auto

lemma list_lines_total:
  "list_lines (\<lambda>t. Some (h t)) ls acc =
     Some (acc @ map (\<lambda>line. JArr (JStr ''li'' # h (drop 3 line))) (filter (is_prefix ''[*]'') ls))"
  by (induction ls arbitrary: acc) (simp_all add: indexOf_zero js_concat_def)

lemma list_blocks_total:
  "list_blocks (\<lambda>t. Some (h t)) bcs acc =
     Some (acc @ map (\<lambda>line. JArr (JStr ''li'' # h (drop 3 line)))
                   (filter (is_prefix ''[*]'') (concat (map split_nl bcs))))"
  by (induction bcs arbitrary: acc) (simp_all add: list_lines_total)

lemma ex_list:
  "block_pass bbcode_dialect [''[list]'', ''[*]one'', ''[*]two'', ''[/list]''] =
     Some [JArr [JStr ''ul'', JArr [JStr ''li'', JStr ''one''], JArr [JStr ''li'', JStr ''two'']]]"
  by (simp add: block_eval)

lemma ex_list_empty_item:
  "block_pass bbcode_dialect [''[list]'', ''[*]'', ''[/list]''] = Some [JArr [JStr ''ul'', JArr [JStr ''li'']]]"
  by (simp add: block_eval)

section \<open>More whole inputs\<close>





lemma rules_nth_Suc0: "inline_rules bbcode_dialect ! Suc 0 = tag_rule ''B'' no_opts (plain emit_b)"
  using rules_nth(2) by simp





lemma BOLD_plain:
  assumes "CHR ''['' \<notin> set x"
  shows "inline_hook bbcode_dialect (''[B]'' @ x @ ''[/B]'') =
           Some [JArr (JStr ''span'' # JObj [(''class'', JStr ''bbcode-b'')] # (if x = [] then [] else [JStr x]))]"
  using inline_hook_span[where d = bbcode_dialect and i = 1 and s = x
      and r = "tag_rule ''B'' no_opts (plain emit_b)"
      and contents = "JArr (if x = [] then [] else [JStr x])"
      and node = "JArr (JStr ''span'' # JObj [(''class'', JStr ''bbcode-b'')] # (if x = [] then [] else [JStr x]))"]
    indexOf_after_plain[where b = "CHR ''[''" and x = x and t = "''/B]''" and rest = "[]"] assms
  by (simp add: rules_length rules_nth_Suc0 starts_eq tag_rule_sel opts_sel hook_plain plain_def emit_b_def
        js_concat_def)


lemma size_or_1_seven: "number_to_string (size_or_1 ''7'') = ''7''"
  by code_simp

lemma ex_size_7:
  "inline_hook bbcode_dialect ''[size=7]x[/size]'' =
     Some [JArr [JStr ''span'', JObj [(''class'', JStr ''bbcode-size-7'')], JStr ''x'']]"
  using inline_hook_span[where d = bbcode_dialect and i = 26 and s = "''7]x''"
      and r = "param_rule ''size'' (recursive_emitter emit_size)"
      and contents = "JStr ''7]x''"
      and node = "JArr [JStr ''span'', JObj [(''class'', JStr ''bbcode-size-7'')], JStr ''x'']"]
  by (simp add: rules_length rules_nth starts_eq param_rule_sel hook_plain size_or_1_seven
       params_emitter_def recursive_emitter_def emit_size_def js_concat_def regexp_eval)

lemma first_match_first:
  assumes "list_all (\<lambda>q. apply_rule this prev text q = Some None) rs1"
    and "apply_rule this prev text r = Some (Some m)"
  shows "first_match this prev text (rs1 @ r # rs2) = Some (Some m)"
  using assms by (induction rs1) auto








section \<open>Tokens that occur once\<close>


lemma is_prefix_hd: "is_prefix (a # p) (b # q) \<Longrightarrow> a = b"
  by simp








section \<open>The scan of the dialect always finishes\<close>











section \<open>Claims\<close>

text \<open>
  C1.  The emitter the file registers for the \<open>b\<close> tag returns, for every sequence of
  processed contents, a \<open>span\<close> element whose \<open>class\<close> attribute is \<open>bbcode-b\<close> and whose
  children are exactly those contents in order (first as JsonML, then in the spec's node
  model); it is the emitter of the first rule of the dialect, registered for \<open>[b]\<close> and
  \<open>[/b]\<close>; and the input \<open>[b]x[/b]\<close> yields the element \<open>span\<close> with class \<open>bbcode-b\<close> and
  the single child \<open>x\<close>.
\<close>

theorem bold_emitter:
  "emit_b (JArr nodes) = JArr (JStr ''span'' # JObj [(''class'', JStr ''bbcode-b'')] # nodes)
   \<and> to_node (emit_b (JArr nodes)) = map_option (Element ''span'' [(''class'', ''bbcode-b'')]) (to_nodes nodes)
   \<and> inline_rules (replaceBBCode ''b'' (plain emit_b) no_opts empty_dialect) ! 0 =
       \<lparr>start = ''[b]'', stop = ''[/b]'', rawContents = False, wordBoundary = False,
        spaceBoundary = False, emitter = plain emit_b\<rparr>
   \<and> inline_rules bbcode_dialect ! 0 = inline_rules (replaceBBCode ''b'' (plain emit_b) no_opts empty_dialect) ! 0
   \<and> plain emit_b this (JArr nodes) = Some (JArr (JStr ''span'' # JObj [(''class'', JStr ''bbcode-b'')] # nodes))
   \<and> inline_hook bbcode_dialect ''[b]x[/b]'' =
       Some [JArr [JStr ''span'', JObj [(''class'', JStr ''bbcode-b'')], JStr ''x'']]
   \<and> to_nodes [JArr [JStr ''span'', JObj [(''class'', JStr ''bbcode-b'')], JStr ''x'']] =
       Some [Element ''span'' [(''class'', ''bbcode-b'')] [Text ''x'']]"
  by (simp add: emit_b_def js_concat_def ex_b rules_nth replaceBBCode_rules empty_dialect_def
        tag_rule_def no_opts_def plain_def)

text \<open>
  The emitter on a two-node contents sequence: both nodes become children, in order.
\<close>

theorem bold_emitter_witness:
  "emit_b (JArr [JStr ''a'', JArr [JStr ''span'', JObj [(''class'', JStr ''bbcode-i'')], JStr ''c'']]) =
     JArr [JStr ''span'', JObj [(''class'', JStr ''bbcode-b'')],
           JStr ''a'', JArr [JStr ''span'', JObj [(''class'', JStr ''bbcode-i'')], JStr ''c'']]"
  using bold_emitter[of "[JStr ''a'', JArr [JStr ''span'', JObj [(''class'', JStr ''bbcode-i'')], JStr ''c'']]"]
  by simp

text \<open>
  C2, as the claim states it, fails: the captured span \<open>]a]b\<close> is matched, its first \<open>]\<close>
  is at index 0, and the contents are \<open>b\<close>, not the remainder \<open>a]b\<close> after that first
  \<open>]\<close>; the input \<open>[url=]a]b[/url]\<close> yields a link to \<open>]a\<close>.
\<close>

theorem param_split_counterexample:
  "regexp_exec '']a]b'' = Some ('']a'', ''b'')
   \<and> indexOf '']'' '']a]b'' = Some 0
   \<and> drop (Suc 0) '']a]b'' \<noteq> ''b''
   \<and> inline_hook bbcode_dialect ''[url=]a]b[/url]'' =
       Some [JArr [JStr ''a'', JObj [(''href'', JStr '']a''), (''data-bbcode'', JBool True)], JStr ''b'']]"
  by (simp add: regexp_eval ex_url_bracket)

text \<open>
  C2, amended.  For every parameterized match of a tag registered via
  \<open>replaceBBCodeParamsRaw\<close>, the captured span is an optional quote, the parameter, an
  optional quote, a \<open>]\<close> and the contents.  The parameter is never empty and holds no
  \<open>]\<close> after its first character, so the split is at the first \<open>]\<close> that follows at
  least one parameter character; when the parameter does not begin with \<open>]\<close> that is the
  first \<open>]\<close> of the span.  The user emitter receives that parameter and those contents.
  In particular \<open>[url=http://example.com]click[/url]\<close> yields the element \<open>a\<close> with
  \<open>href\<close> \<open>http://example.com\<close>, \<open>data-bbcode\<close> \<open>true\<close> and the single child \<open>click\<close>.
\<close>

theorem param_split:
  "(regexp_exec s = Some (p, c) \<longrightarrow>
      (\<exists>lq tq. s = lq @ p @ tq @ '']'' @ c
         \<and> (lq = [] \<or> (\<exists>q. lq = [q] \<and> is_quote q))
         \<and> (tq = [] \<or> (\<exists>q. tq = [q] \<and> is_quote q))
         \<and> p \<noteq> [] \<and> CHR '']'' \<notin> set (tl p)
         \<and> (hd p \<noteq> CHR '']'' \<longrightarrow> indexOf '']'' s = Some (length (lq @ p @ tq))))
      \<and> params_emitter em this (JStr s) = em this p c)
   \<and> inline_hook bbcode_dialect ''[url=http://example.com]click[/url]'' =
       Some [JArr [JStr ''a'', JObj [(''href'', JStr ''http://example.com''), (''data-bbcode'', JBool True)],
                   JStr ''click'']]
   \<and> to_nodes [JArr [JStr ''a'', JObj [(''href'', JStr ''http://example.com''), (''data-bbcode'', JBool True)],
                      JStr ''click'']] =
       Some [Element ''a'' [(''href'', ''http://example.com''), (''data-bbcode'', ''true'')] [Text ''click'']]"
proof -
  have "\<exists>lq tq. s = lq @ p @ tq @ '']'' @ c
         \<and> (lq = [] \<or> (\<exists>q. lq = [q] \<and> is_quote q))
         \<and> (tq = [] \<or> (\<exists>q. tq = [q] \<and> is_quote q))
         \<and> p \<noteq> [] \<and> CHR '']'' \<notin> set (tl p)
         \<and> (hd p \<noteq> CHR '']'' \<longrightarrow> indexOf '']'' s = Some (length (lq @ p @ tq)))"
    if m: "regexp_exec s = Some (p, c)"
  proof -
    from regexp_exec_Some[OF m] obtain lq tq where d:
      "s = lq @ p @ tq @ CHR '']'' # c"
      "lq = [] \<or> (\<exists>q. lq = [q] \<and> is_quote q)"
      "tq = [] \<or> (\<exists>q. tq = [q] \<and> is_quote q)"
      "p \<noteq> []" "CHR '']'' \<notin> set (tl p)" by blast
    have "indexOf '']'' s = Some (length (lq @ p @ tq))" if h: "hd p \<noteq> CHR '']''"
    proof -
      have "CHR '']'' \<notin> set p" using d(4,5) h by (cases p) auto
      then have "CHR '']'' \<notin> set (lq @ p @ tq)"
        using d(2,3) by (auto simp: is_quote_def)
      from indexOf_single[OF this, of c] d(1) show ?thesis by simp
    qed
    with d show ?thesis by (intro exI[of _ lq] exI[of _ tq]) simp
  qed
  moreover have "params_emitter em this (JStr s) = em this p c" if "regexp_exec s = Some (p, c)"
    using that by (simp add: params_emitter_def)
  ultimately show ?thesis
    using ex_url by simp
qed

text \<open>
  A span whose parameter is wrapped in double quotes: one layer is stripped on each
  side, and the user emitter is called with the parameter and the contents.
\<close>

theorem param_split_witness:
  "regexp_exec (CHR 0x22 # ''http://example.com'' @ [CHR 0x22] @ '']click'') = Some (''http://example.com'', ''click'')
   \<and> params_emitter (\<lambda>this param contents. Some (emit_fphp_param param contents)) (\<lambda>t. None)
         (JStr (CHR 0x22 # ''http://example.com'' @ [CHR 0x22] @ '']click'')) =
       Some (emit_fphp_param ''http://example.com'' ''click'')"
proof -
  have m: "regexp_exec (CHR 0x22 # ''http://example.com'' @ [CHR 0x22] @ '']click'') =
             Some (''http://example.com'', ''click'')"
    by (simp add: regexp_eval)
  with param_split[of "CHR 0x22 # ''http://example.com'' @ [CHR 0x22] @ '']click''"
      "''http://example.com''" "''click''"
      "\<lambda>this param contents. Some (emit_fphp_param param contents)" "\<lambda>t. None"]
  show ?thesis by simp
qed




text \<open>
  C4, as the claim states it, fails: for the sub-line \<open>[*]\<close> the hook returns the empty
  node list, and an \<open>li\<close> is appended all the same, since an empty array is truthy.
\<close>

theorem list_item_counterexample:
  "inline_hook bbcode_dialect (drop 3 ''[*]'') = Some []
   \<and> emit_list (inline_hook bbcode_dialect) [''[*]''] [JStr ''[list]'', JUndefined, JStr []] =
       Some (JArr [JStr ''ul'', JArr [JStr ''li'']])
   \<and> block_pass bbcode_dialect [''[list]'', ''[*]'', ''[/list]''] = Some [JArr [JStr ''ul'', JArr [JStr ''li'']]]"
  by (simp add: ex_list_empty_item inline_hook_plain emit_list_def js_index_def js_concat_def)

text \<open>
  C4, amended.  For every \<open>[list]\<close> block and every hook that returns, each accumulated
  line is split on line feeds; every sub-line beginning with \<open>[*]\<close> gives one \<open>li\<close>
  element, in order, whose children are what the hook returns for the remainder after
  the 3-character marker (whatever it returns, the empty list included); every other
  sub-line is dropped.  The element is \<open>ol\<close> with the \<open>type\<close> captured by the start
  pattern when there is one, and \<open>ul\<close> otherwise.  In particular the lines \<open>[list]\<close>,
  \<open>[*]one\<close>, \<open>[*]two\<close>, \<open>[/list]\<close> yield a \<open>ul\<close> with exactly the two \<open>li\<close> children \<open>one\<close>
  and \<open>two\<close>.
\<close>

theorem list_emitter:
  "emit_list (\<lambda>t. Some (h t)) blockContents matches =
     Some (JArr ((if truthy (js_index matches 1)
                  then [JStr ''ol'', JObj [(''type'', js_index matches 1)]]
                  else [JStr ''ul''])
                 @ map (\<lambda>line. JArr (JStr ''li'' # h (drop 3 line)))
                     (filter (is_prefix ''[*]'') (concat (map split_nl blockContents)))))
   \<and> block_pass bbcode_dialect [''[list]'', ''[*]one'', ''[*]two'', ''[/list]''] =
       Some [JArr [JStr ''ul'', JArr [JStr ''li'', JStr ''one''], JArr [JStr ''li'', JStr ''two'']]]
   \<and> to_nodes [JArr [JStr ''ul'', JArr [JStr ''li'', JStr ''one''], JArr [JStr ''li'', JStr ''two'']]] =
       Some [Element ''ul'' [] [Element ''li'' [] [Text ''one''], Element ''li'' [] [Text ''two'']]]"
  by (simp add: emit_list_def Let_def list_blocks_total ex_list)

text \<open>
  A block with a typed start, a line holding three sub-lines (an item, prose, an empty
  item), a line whose marker is not at its start, and one more item.
\<close>

theorem list_emitter_witness:
  "emit_list (\<lambda>t. Some (if t = [] then [] else [JStr t]))
     [''[*]one'' @ [CHR 0x0A] @ ''junk'' @ [CHR 0x0A] @ ''[*]'', ''x [*]y'', ''[*]two'']
     [JStr ''[list=a]'', JStr ''a'', JStr []] =
   Some (JArr [JStr ''ol'', JObj [(''type'', JStr ''a'')],
               JArr [JStr ''li'', JStr ''one''], JArr [JStr ''li''], JArr [JStr ''li'', JStr ''two'']])"
  using list_emitter[of "\<lambda>t. if t = [] then [] else [JStr t]"
      "[''[*]one'' @ [CHR 0x0A] @ ''junk'' @ [CHR 0x0A] @ ''[*]'', ''x [*]y'', ''[*]two'']"
      "[JStr ''[list=a]'', JStr ''a'', JStr []]"]
  by (simp add: js_index_def)




text \<open>
  C6.  Registration appends, also when the rule is already there; a rule whose start
  token does not literally prefix the remaining text does not match; among the
  registered rules the first one that matches wins, whatever follows it; the file
  registers \<open>[size=\<close> twice, first the \<open>span\<close> emitter and later the \<open>font\<close> emitter; and
  \<open>[size=7]x[/size]\<close> yields the \<open>span\<close> with class \<open>bbcode-size-7\<close>, not the \<open>font\<close>
  element the later emitter builds.
\<close>

theorem first_registered_wins:
  "inline_rules (inlineBetween r d) = inline_rules d @ [r]
   \<and> inline_rules (inlineBetween r (inlineBetween r d)) = inline_rules d @ [r, r]
   \<and> (\<not> is_prefix (start r) text \<longrightarrow> apply_rule this prev text r = Some None)
   \<and> (list_all (\<lambda>q. apply_rule this prev text q = Some None) rs1
        \<and> apply_rule this prev text r = Some (Some m)
        \<longrightarrow> first_match this prev text (rs1 @ r # rs2) = Some (Some m))
   \<and> inline_rules bbcode_dialect ! 26 = param_rule ''size'' (recursive_emitter emit_size)
   \<and> inline_rules bbcode_dialect ! 30 = param_rule ''size'' (recursive_emitter emit_font_size)
   \<and> start (param_rule ''size'' em1) = ''[size=''
   \<and> inline_hook bbcode_dialect ''[size=7]x[/size]'' =
       Some [JArr [JStr ''span'', JObj [(''class'', JStr ''bbcode-size-7'')], JStr ''x'']]
   \<and> emit_font_size ''7'' (JArr [JStr ''x'']) = JArr [JStr ''font'', JObj [(''size'', JStr ''7'')], JStr ''x'']"
proof -
  have "first_match this prev text (rs1 @ r # rs2) = Some (Some m)"
    if "list_all (\<lambda>q. apply_rule this prev text q = Some None) rs1"
      and "apply_rule this prev text r = Some (Some m)"
    using that by (rule first_match_first)
  then show ?thesis
    by (simp add: inlineBetween_def rules_nth param_rule_sel ex_size_7 emit_font_size_def js_concat_def
          apply_rule_no_prefix)
qed

text \<open>
  A rule list in which an unrelated rule precedes the two \<open>size\<close> rules: the first
  \<open>size\<close> rule gives the match.
\<close>

theorem first_registered_wins_witness:
  "apply_rule (\<lambda>t. Some [JStr t]) None ''[size=7]x[/size]'' (tag_rule ''s'' no_opts (plain emit_s)) = Some None
   \<and> apply_rule (\<lambda>t. Some [JStr t]) None ''[size=7]x[/size]'' (param_rule ''size'' (recursive_emitter emit_size)) =
       Some (Some (16, JArr [JStr ''span'', JObj [(''class'', JStr ''bbcode-size-7'')], JStr ''x'']))
   \<and> first_match (\<lambda>t. Some [JStr t]) None ''[size=7]x[/size]''
         ([tag_rule ''s'' no_opts (plain emit_s)] @ param_rule ''size'' (recursive_emitter emit_size)
            # [param_rule ''size'' (recursive_emitter emit_font_size)]) =
       Some (Some (16, JArr [JStr ''span'', JObj [(''class'', JStr ''bbcode-size-7'')], JStr ''x'']))"
proof -
  have a: "apply_rule (\<lambda>t. Some [JStr t]) None ''[size=7]x[/size]'' (tag_rule ''s'' no_opts (plain emit_s)) = Some None"
    by (simp add: apply_rule_def tag_rule_sel)
  have b: "apply_rule (\<lambda>t. Some [JStr t]) None ''[size=7]x[/size]''
             (param_rule ''size'' (recursive_emitter emit_size)) =
           Some (Some (16, JArr [JStr ''span'', JObj [(''class'', JStr ''bbcode-size-7'')], JStr ''x'']))"
    by (simp add: apply_rule_def param_rule_sel invalidBoundary_def params_emitter_def recursive_emitter_def
          emit_size_def size_or_1_seven js_concat_def regexp_eval)
  from first_registered_wins[where this = "\<lambda>t. Some [JStr t]" and prev = None and ?text = "''[size=7]x[/size]''"
      and ?rs1.0 = "[tag_rule ''s'' no_opts (plain emit_s)]"
      and r = "param_rule ''size'' (recursive_emitter emit_size)"
      and m = "(16, JArr [JStr ''span'', JObj [(''class'', JStr ''bbcode-size-7'')], JStr ''x''])"
      and ?rs2.0 = "[param_rule ''size'' (recursive_emitter emit_font_size)]"] a b
  show ?thesis by simp
qed



text \<open>
  C8.  For every parameter string whose base-10 integer parse fails or yields 0, the
  first-registered size emitter still returns an element: a \<open>span\<close> whose class is
  \<open>bbcode-size-1\<close>, around the contents it was given.  The same holds behind the
  re-entry of \<open>replaceBBCodeParams\<close>, for any hook that returns.
\<close>

theorem size_emitter_default:
  assumes "parseInt10 param = None \<or> parseInt10 param = Some 0"
  shows "emit_size param contents =
           JArr (js_concat [JStr ''span'', JObj [(''class'', JStr ''bbcode-size-1'')]] contents)
         \<and> recursive_emitter emit_size (\<lambda>t. Some (h t)) param text =
           Some (JArr (JStr ''span'' # JObj [(''class'', JStr ''bbcode-size-1'')] # h text))"
proof -
  have "size_or_1 param = 1"
    using assms by (rule size_or_1_default)
  then show ?thesis
    by (simp add: emit_size_def number_to_string_1 recursive_emitter_def js_concat_def)
qed

text \<open>
  The parameters \<open>huge\<close> (no digit) and \<open>0x10\<close> (parsed as 0, since the radix is
  given), and the input \<open>[size=huge]x[/size]\<close> through the engine.
\<close>

theorem size_emitter_default_witness:
  "parseInt10 ''huge'' = None
   \<and> emit_size ''huge'' (JArr [JStr ''x'']) =
       JArr [JStr ''span'', JObj [(''class'', JStr ''bbcode-size-1'')], JStr ''x'']
   \<and> parseInt10 ''0x10'' = Some 0
   \<and> emit_size ''0x10'' (JArr [JStr ''x'']) =
       JArr [JStr ''span'', JObj [(''class'', JStr ''bbcode-size-1'')], JStr ''x'']
   \<and> inline_hook bbcode_dialect ''[size=huge]x[/size]'' =
       Some [JArr [JStr ''span'', JObj [(''class'', JStr ''bbcode-size-1'')], JStr ''x'']]"
  using size_emitter_default[of "''huge''" "JArr [JStr ''x'']"]
    size_emitter_default[of "''0x10''" "JArr [JStr ''x'']"] ex_size_huge
  by (simp add: parseInt10_huge parseInt10_zero js_concat_def)

text \<open>
  C9.  The spoiler emitter returns a \<open>div\<close> with class \<open>spoiler\<close> exactly when its raw
  contents contain \<open><img\<close> in any mix of upper and lower case (some substring whose
  upper-case form is \<open><IMG\<close>), and a \<open>span\<close> with class \<open>spoiler\<close> otherwise; in both
  cases the raw contents, as they are, are the element's single child.
\<close>

theorem spoiler_emitter:
  "emit_spoiler (JStr s) =
     JArr [JStr (if (\<exists>pre mid post. s = pre @ mid @ post \<and> map upper_char mid = ''<IMG'') then ''div''
                 else ''span''),
           JObj [(''class'', JStr ''spoiler'')], JStr s]"
  unfolding emit_spoiler_def to_js_string.simps img_test_iff by simp

text \<open>
  The emitter on a contents string with an upper-case image tag, and on one with
  bracket tokens but no image tag.
\<close>

theorem spoiler_emitter_witness:
  "emit_spoiler (JStr ''a <IMG src=x>'') =
     JArr [JStr ''div'', JObj [(''class'', JStr ''spoiler'')], JStr ''a <IMG src=x>'']
   \<and> emit_spoiler (JStr ''[b]x[/b]'') =
     JArr [JStr ''span'', JObj [(''class'', JStr ''spoiler'')], JStr ''[b]x[/b]'']"
proof -
  have 1: "\<exists>pre mid post. ''a <IMG src=x>'' = pre @ mid @ post \<and> map upper_char mid = ''<IMG''"
    by (intro exI[of _ "''a ''"] exI[of _ "''<IMG''"] exI[of _ "'' src=x>''"]) (simp add: upper_char_def)
  have 2: "\<not> (\<exists>pre mid post. ''[b]x[/b]'' = pre @ mid @ post \<and> map upper_char mid = ''<IMG'')"
    unfolding img_test_iff[symmetric] by (simp add: img_test_def upper_char_def)
  show ?thesis
    using spoiler_emitter[of "''a <IMG src=x>''"] spoiler_emitter[of "''[b]x[/b]''"] 1 2
    by simp
qed



end
